theory Spec2Isabelle
  imports Main
begin

section \<open>Errors (common/errors/ApiErrors.ts, common/constants/HttpStatusCodes.ts)\<close>

text \<open>
  An \<open>ApiError\<close> object carries the class name, the message, the HTTP status and the
  error code. The centralized responder (\<open>errorHandler\<close>) sends exactly
  \<open>statusCode\<close>, \<open>code\<close> and \<open>message\<close> of an \<open>ApiError\<close> to the client.
\<close>

record ApiError =
  name :: string
  message :: string
  statusCode :: nat
  code :: string

definition UNAUTHORIZED_401 :: nat where "UNAUTHORIZED_401 = 401"
definition NOT_FOUND_404 :: nat where "NOT_FOUND_404 = 404"
definition CONFLICT_409 :: nat where "CONFLICT_409 = 409"
definition INTERNAL_SERVER_ERROR_500 :: nat where "INTERNAL_SERVER_ERROR_500 = 500"

definition UnauthorizedError :: "string \<Rightarrow> ApiError" where
  "UnauthorizedError m =
     \<lparr>name = ''UnauthorizedError'', message = m, statusCode = UNAUTHORIZED_401, code = ''UNAUTHORIZED''\<rparr>"

definition NotFoundError :: "string \<Rightarrow> ApiError" where
  "NotFoundError m =
     \<lparr>name = ''NotFoundError'', message = m, statusCode = NOT_FOUND_404, code = ''NOT_FOUND''\<rparr>"

definition ConflictError :: "string \<Rightarrow> ApiError" where
  "ConflictError m =
     \<lparr>name = ''ConflictError'', message = m, statusCode = CONFLICT_409, code = ''CONFLICT''\<rparr>"

definition InternalServerError :: "string \<Rightarrow> ApiError" where
  "InternalServerError m =
     \<lparr>name = ''InternalServerError'', message = m, statusCode = INTERNAL_SERVER_ERROR_500,
      code = ''INTERNAL_SERVER_ERROR''\<rparr>"

text \<open>
  Everything the service can throw. \<open>JsonWebTokenError\<close>, \<open>TokenExpiredError\<close> and
  \<open>NotBeforeError\<close> are the error classes of the jsonwebtoken library; \<open>StoreError\<close> is an
  error raised by the Prisma client (the string is its code); \<open>TypeError\<close> is the
  JavaScript runtime error of reading a property of null.
\<close>

datatype exn =
    Api ApiError
  | JsonWebTokenError string
  | TokenExpiredError string
  | NotBeforeError string
  | StoreError string
  | TypeError

text \<open>
  \<open>error instanceof jwt.JsonWebTokenError\<close> and \<open>error instanceof jwt.TokenExpiredError\<close>.
  In the jsonwebtoken library \<open>TokenExpiredError\<close> and \<open>NotBeforeError\<close> are subclasses
  of \<open>JsonWebTokenError\<close> (their prototypes are created from
  \<open>JsonWebTokenError.prototype\<close>), so an instance of either is an instance of
  \<open>JsonWebTokenError\<close> too.
\<close>

fun instanceof_JsonWebTokenError :: "exn \<Rightarrow> bool" where
  "instanceof_JsonWebTokenError (JsonWebTokenError _) = True"
| "instanceof_JsonWebTokenError (TokenExpiredError _) = True"
| "instanceof_JsonWebTokenError (NotBeforeError _) = True"
| "instanceof_JsonWebTokenError _ = False"

fun instanceof_TokenExpiredError :: "exn \<Rightarrow> bool" where
  "instanceof_TokenExpiredError (TokenExpiredError _) = True"
| "instanceof_TokenExpiredError _ = False"

text \<open>The error kind a client sees as Unauthorized: status 401 with code UNAUTHORIZED.\<close>

fun is_Unauthorized :: "exn \<Rightarrow> bool" where
  "is_Unauthorized (Api e) = (statusCode e = 401 \<and> code e = ''UNAUTHORIZED'')"
| "is_Unauthorized _ = False"

section \<open>Constants of models/auth.ts\<close>

definition INVALID_CREDENTIALS :: string where "INVALID_CREDENTIALS = ''Invalid email or password''"
definition USER_NOT_FOUND :: string where "USER_NOT_FOUND = ''User not found''"
definition USER_INACTIVE :: string where "USER_INACTIVE = ''Account is deactivated''"
definition INVALID_TOKEN :: string where "INVALID_TOKEN = ''Invalid or expired token''"
definition TOKEN_EXPIRED :: string where "TOKEN_EXPIRED = ''Token has expired''"
definition UNAUTHORIZED :: string where "UNAUTHORIZED = ''Unauthorized access''"
definition INSUFFICIENT_PERMISSIONS :: string where
  "INSUFFICIENT_PERMISSIONS = ''Insufficient permissions''"
definition EMAIL_ALREADY_EXISTS :: string where "EMAIL_ALREADY_EXISTS = ''Email already exists''"
definition USERNAME_ALREADY_EXISTS :: string where
  "USERNAME_ALREADY_EXISTS = ''Username already exists''"

text \<open>\<open>SESSION_EXPIRY\<close>, in seconds, and the lifetime of \<open>JWT_CONFIG.ACCESS_TOKEN_EXPIRES_IN = '15m'\<close>.\<close>

definition SESSION_EXPIRY_DEFAULT :: nat where "SESSION_EXPIRY_DEFAULT = 7 * 24 * 60 * 60"
definition SESSION_EXPIRY_REMEMBER_ME :: nat where "SESSION_EXPIRY_REMEMBER_ME = 30 * 24 * 60 * 60"
definition ACCESS_TOKEN_EXPIRES_IN :: nat where "ACCESS_TOKEN_EXPIRES_IN = 15 * 60"

definition saltRounds :: nat where "saltRounds = 12"

section \<open>Data model\<close>

text \<open>
  The rows of the relational store, as the service reads and writes them. Timestamps are
  milliseconds since the epoch. A user row is kept together with its role assignments
  (the \<open>include: { userRoles: { include: { role: true } } }\<close> join); the authentication
  flow never writes them.
\<close>

record Role =
  role_id :: string
  role_name :: string
  role_displayName :: string

record UserRole =
  role :: Role

record User =
  user_id :: string
  email :: string
  username :: "string option"
  password :: string
  firstName :: "string option"
  lastName :: "string option"
  isActive :: bool
  createdAt :: nat
  updatedAt :: nat
  lastLogin :: "nat option"
  userRoles :: "UserRole list"

record Session =
  session_id :: string
  session_userId :: string
  session_refreshToken :: string
  expiresAt :: nat
  isRevoked :: bool
  session_createdAt :: nat
  session_updatedAt :: nat

record AuditLog =
  audit_userId :: string
  audit_action :: string
  audit_createdAt :: nat

record DB =
  users :: "User list"
  sessions :: "Session list"
  auditLogs :: "AuditLog list"

text \<open>
  Modelled from the spec: the schema of the store (\<open>prisma/schema.prisma\<close>) is not among
  the sources. The data model of the spec gives an identity a unique id and a unique
  email, and a session a unique refresh-token string; these are also the columns the
  service calls \<open>findUnique\<close> on.
\<close>

definition db_wf :: "DB \<Rightarrow> bool" where
  "db_wf db =
     (distinct (map user_id (users db)) \<and> distinct (map email (users db)) \<and>
      distinct (map session_id (sessions db)) \<and> distinct (map session_refreshToken (sessions db)))"

section \<open>Request and response types\<close>

record LoginRequest =
  login_email :: string
  login_password :: string
  rememberMe :: bool

record RegisterRequest =
  reg_email :: string
  reg_password :: string
  reg_confirmPassword :: string
  reg_firstName :: "string option"
  reg_lastName :: "string option"
  reg_username :: "string option"

record ChangePasswordRequest =
  currentPassword :: string
  newPassword :: string
  confirmPassword :: string

record RefreshTokenRequest =
  req_refreshToken :: string

record JwtPayload =
  sub :: string
  jwt_email :: string
  roles :: "string list"
  iat :: "nat option"
  exp :: "nat option"

text \<open>
  An access token is a string; what the service can tell about it is whether it is a
  well-formed signed structure, and then its payload and the key it was signed with.
\<close>

datatype AccessToken =
    Signed JwtPayload string
  | Malformed string

record Tokens =
  accessToken :: AccessToken
  tok_refreshToken :: string
  expiresIn :: nat

record RoleResponse =
  rr_id :: string
  rr_name :: string
  rr_displayName :: string

record UserResponse =
  resp_id :: string
  resp_email :: string
  resp_username :: "string option"
  resp_firstName :: "string option"
  resp_lastName :: "string option"
  resp_isActive :: bool
  resp_createdAt :: nat
  resp_updatedAt :: nat
  resp_lastLogin :: "nat option"
  resp_roles :: "RoleResponse list"

record AuthResponse =
  resp_user :: UserResponse
  resp_tokens :: Tokens

text \<open>
  What one call of the service reads from outside the store: the clock (\<open>new Date()\<close>,
  \<open>Date.now()\<close>; one reading for the whole call), the bytes of
  \<open>randomBytes(64).toString('hex')\<close>, the identifier the store gives to a created row, the
  bcrypt library, the signing secret, whether the write of the audit entry fails, and
  which write inside the transaction of \<open>changePassword\<close> fails, if any. Other failures of
  the connection to the store are not modelled.
\<close>

datatype TxFault = NoFault | UserUpdateFails | SessionUpdateManyFails

record Env =
  now :: nat
  randomHex :: string
  newId :: string
  bcrypt_compare :: "string \<Rightarrow> string \<Rightarrow> bool"
  bcrypt_hash :: "string \<Rightarrow> nat \<Rightarrow> string"
  jwtSecret :: string
  auditLogFails :: bool
  txFault :: TxFault

section \<open>models/user.ts\<close>

definition transformUserToResponse :: "User \<Rightarrow> UserResponse" where
  "transformUserToResponse user =
     \<lparr>resp_id = user_id user, resp_email = email user, resp_username = username user,
      resp_firstName = firstName user, resp_lastName = lastName user,
      resp_isActive = isActive user, resp_createdAt = createdAt user,
      resp_updatedAt = updatedAt user, resp_lastLogin = lastLogin user,
      resp_roles = map (\<lambda>ur. \<lparr>rr_id = role_id (role ur), rr_name = role_name (role ur),
                                  rr_displayName = role_displayName (role ur)\<rparr>) (userRoles user)\<rparr>"

definition userHasRole :: "User \<Rightarrow> string \<Rightarrow> bool" where
  "userHasRole user roleName = list_ex (\<lambda>ur. role_name (role ur) = roleName) (userRoles user)"

definition userHasAnyRole :: "User \<Rightarrow> string list \<Rightarrow> bool" where
  "userHasAnyRole user roleNames =
     list_ex (\<lambda>ur. role_name (role ur) \<in> set roleNames) (userRoles user)"

section \<open>The store operations the service calls (Prisma client)\<close>

definition user_findUnique_email :: "DB \<Rightarrow> string \<Rightarrow> User option" where
  "user_findUnique_email db e = find (\<lambda>u. email u = e) (users db)"

definition user_findUnique_id :: "DB \<Rightarrow> string \<Rightarrow> User option" where
  "user_findUnique_id db i = find (\<lambda>u. user_id u = i) (users db)"

text \<open>\<open>data.username ? [{ username: data.username }] : []\<close>: an absent or empty name adds no condition.\<close>

fun truthy :: "string option \<Rightarrow> bool" where
  "truthy None = False"
| "truthy (Some s) = (s \<noteq> [])"

definition user_findFirst_email_or_username :: "DB \<Rightarrow> string \<Rightarrow> string option \<Rightarrow> User option" where
  "user_findFirst_email_or_username db e un =
     find (\<lambda>u. email u = e \<or> (truthy un \<and> username u = un)) (users db)"

text \<open>
  \<open>user.create\<close>: a unique-constraint violation is the Prisma error P2002.
  Modelled from the spec: the column defaults of the schema are not among the sources; a
  registered identity is active (the spec: the identity returned by \<open>register\<close> is
  fetchable and active), it has no role assignment and no last login, and its username,
  when it has one, is unique.
\<close>

definition user_create :: "Env \<Rightarrow> string \<Rightarrow> string option \<Rightarrow> string \<Rightarrow> string option \<Rightarrow> string option
    \<Rightarrow> DB \<Rightarrow> (exn + User) \<times> DB" where
  "user_create env e un pw fname lname db =
     (if list_ex (\<lambda>u. user_id u = newId env \<or> email u = e \<or> (un \<noteq> None \<and> username u = un)) (users db)
      then (Inl (StoreError ''P2002''), db)
      else
        let user = \<lparr>user_id = newId env, email = e, username = un, password = pw,
                    firstName = fname, lastName = lname, isActive = True, createdAt = now env,
                    updatedAt = now env, lastLogin = None, userRoles = []\<rparr>
        in (Inr user, db\<lparr>users := users db @ [user]\<rparr>))"

text \<open>\<open>update\<close> on a primary key: the Prisma error P2025 when no row has it.\<close>

definition user_update :: "string \<Rightarrow> (User \<Rightarrow> User) \<Rightarrow> DB \<Rightarrow> (exn + unit) \<times> DB" where
  "user_update i f db =
     (if list_ex (\<lambda>u. user_id u = i) (users db)
      then (Inr (), db\<lparr>users := map (\<lambda>u. if user_id u = i then f u else u) (users db)\<rparr>)
      else (Inl (StoreError ''P2025''), db))"

text \<open>
  \<open>session.findUnique({ where: { refreshToken }, ... })\<close>: the session row that holds the
  token. The user row joined by \<open>include: { user: ... }\<close> is the one
  \<open>user_findUnique_id\<close> finds under the session's user reference.
\<close>

definition session_findUnique_refreshToken :: "DB \<Rightarrow> string \<Rightarrow> Session option" where
  "session_findUnique_refreshToken db t = find (\<lambda>s. session_refreshToken s = t) (sessions db)"

definition session_findUnique_id :: "DB \<Rightarrow> string \<Rightarrow> Session option" where
  "session_findUnique_id db i = find (\<lambda>s. session_id s = i) (sessions db)"

definition session_create :: "Env \<Rightarrow> string \<Rightarrow> string \<Rightarrow> nat \<Rightarrow> DB \<Rightarrow> (exn + unit) \<times> DB" where
  "session_create env uid rt ex db =
     (if list_ex (\<lambda>s. session_id s = newId env \<or> session_refreshToken s = rt) (sessions db)
      then (Inl (StoreError ''P2002''), db)
      else (Inr (), db\<lparr>sessions := sessions db @
              [\<lparr>session_id = newId env, session_userId = uid, session_refreshToken = rt, expiresAt = ex,
                isRevoked = False, session_createdAt = now env, session_updatedAt = now env\<rparr>]\<rparr>))"

text \<open>
  \<open>session.update({ where: { id }, data: { refreshToken, updatedAt } })\<close>: the write of a
  token value that another row holds violates the unique constraint.
\<close>

definition session_update_refreshToken :: "string \<Rightarrow> string \<Rightarrow> nat \<Rightarrow> DB \<Rightarrow> (exn + unit) \<times> DB" where
  "session_update_refreshToken i rt t db =
     (if \<not> list_ex (\<lambda>s. session_id s = i) (sessions db) then (Inl (StoreError ''P2025''), db)
      else if list_ex (\<lambda>s. session_id s \<noteq> i \<and> session_refreshToken s = rt) (sessions db)
      then (Inl (StoreError ''P2002''), db)
      else (Inr (), db\<lparr>sessions :=
              map (\<lambda>s. if session_id s = i then s\<lparr>session_refreshToken := rt, session_updatedAt := t\<rparr> else s)
                (sessions db)\<rparr>))"

definition session_update_isRevoked :: "string \<Rightarrow> DB \<Rightarrow> (exn + unit) \<times> DB" where
  "session_update_isRevoked i db =
     (if \<not> list_ex (\<lambda>s. session_id s = i) (sessions db) then (Inl (StoreError ''P2025''), db)
      else (Inr (), db\<lparr>sessions :=
              map (\<lambda>s. if session_id s = i then s\<lparr>isRevoked := True\<rparr> else s) (sessions db)\<rparr>))"

text \<open>\<open>session.updateMany({ where: { userId, isRevoked: false }, data: { isRevoked: true } })\<close>\<close>

definition session_updateMany_revoke :: "string \<Rightarrow> DB \<Rightarrow> DB" where
  "session_updateMany_revoke uid db =
     db\<lparr>sessions :=
          map (\<lambda>s. if session_userId s = uid \<and> \<not> isRevoked s then s\<lparr>isRevoked := True\<rparr> else s)
            (sessions db)\<rparr>"

text \<open>
  \<open>prisma.$transaction(async (tx) => ...)\<close>: when the callback throws, every write it made
  is rolled back and the error is thrown to the caller.
\<close>

definition transaction :: "(DB \<Rightarrow> (exn + 'a) \<times> DB) \<Rightarrow> DB \<Rightarrow> (exn + 'a) \<times> DB" where
  "transaction body db =
     (case body db of
        (Inl e, _) \<Rightarrow> (Inl e, db)
      | (Inr v, db') \<Rightarrow> (Inr v, db'))"

section \<open>The jsonwebtoken library, as the service uses it\<close>

text \<open>
  \<open>jwt.sign(payload, secret, { expiresIn: '15m' })\<close> adds the issue time and the expiry,
  in seconds. \<open>jwt.verify(token, secret)\<close> throws \<open>JsonWebTokenError\<close> on a malformed
  token or a wrong signature, and \<open>TokenExpiredError\<close> once the clock has reached the
  expiry.
\<close>

definition jwt_sign :: "JwtPayload \<Rightarrow> string \<Rightarrow> nat \<Rightarrow> nat \<Rightarrow> AccessToken" where
  "jwt_sign payload secret lifetime t =
     Signed (payload\<lparr>iat := Some (t div 1000), exp := Some (t div 1000 + lifetime)\<rparr>) secret"

definition jwt_verify :: "AccessToken \<Rightarrow> string \<Rightarrow> nat \<Rightarrow> exn + JwtPayload" where
  "jwt_verify token secret t =
     (case token of
        Malformed _ \<Rightarrow> Inl (JsonWebTokenError ''jwt malformed'')
      | Signed payload k \<Rightarrow>
          if k \<noteq> secret then Inl (JsonWebTokenError ''invalid signature'')
          else (case exp payload of
                  Some e \<Rightarrow> if t div 1000 \<ge> e then Inl (TokenExpiredError ''jwt expired'')
                            else Inr payload
                | None \<Rightarrow> Inr payload))"

section \<open>services/authService.ts\<close>

definition generateTokens :: "Env \<Rightarrow> User \<Rightarrow> Tokens" where
  "generateTokens env user =
     (let payload = \<lparr>sub = user_id user, jwt_email = email user,
                      roles = map (\<lambda>ur. role_name (role ur)) (userRoles user),
                      iat = None, exp = None\<rparr>;
          access = jwt_sign payload (jwtSecret env) ACCESS_TOKEN_EXPIRES_IN (now env);
          refresh = randomHex env
      in \<lparr>accessToken = access, tok_refreshToken = refresh, expiresIn = 15 * 60\<rparr>)"

definition createSession :: "Env \<Rightarrow> string \<Rightarrow> string \<Rightarrow> bool \<Rightarrow> DB \<Rightarrow> (exn + unit) \<times> DB" where
  "createSession env userId refresh remember db =
     (let expirySeconds = (if remember then SESSION_EXPIRY_REMEMBER_ME else SESSION_EXPIRY_DEFAULT);
          expires = now env + expirySeconds * 1000
      in session_create env userId refresh expires db)"

text \<open>The audit entry is best effort: a failure of its write is caught and logged only.\<close>

definition logAuditEvent :: "Env \<Rightarrow> string \<Rightarrow> string \<Rightarrow> DB \<Rightarrow> DB" where
  "logAuditEvent env userId action db =
     (if auditLogFails env then db
      else db\<lparr>auditLogs := auditLogs db @
             [\<lparr>audit_userId = userId, audit_action = action, audit_createdAt = now env\<rparr>]\<rparr>)"

text \<open>\<open>existingUser.username === data.username\<close>: \<open>null\<close> and \<open>undefined\<close> are not strictly equal.\<close>

fun username_strict_eq :: "string option \<Rightarrow> string option \<Rightarrow> bool" where
  "username_strict_eq (Some a) (Some b) = (a = b)"
| "username_strict_eq _ _ = False"

definition register :: "Env \<Rightarrow> RegisterRequest \<Rightarrow> DB \<Rightarrow> (exn + AuthResponse) \<times> DB" where
  "register env data db =
     (let existingUser = user_findFirst_email_or_username db (reg_email data) (reg_username data);
          thrown =
            (case existingUser of
               None \<Rightarrow> None
             | Some ex \<Rightarrow>
                 if email ex = reg_email data then Some (UnauthorizedError EMAIL_ALREADY_EXISTS)
                 else if username_strict_eq (username ex) (reg_username data)
                 then Some (UnauthorizedError USERNAME_ALREADY_EXISTS)
                 else None)
      in case thrown of
           Some e \<Rightarrow> (Inl (Api e), db)
         | None \<Rightarrow>
             let hashedPassword = bcrypt_hash env (reg_password data) saltRounds in
             (case user_create env (reg_email data) (reg_username data) hashedPassword
                     (reg_firstName data) (reg_lastName data) db of
                (Inl e, db1) \<Rightarrow> (Inl e, db1)
              | (Inr user, db1) \<Rightarrow>
                  let tokens = generateTokens env user in
                  (case createSession env (user_id user) (tok_refreshToken tokens) False db1 of
                     (Inl e, db2) \<Rightarrow> (Inl e, db2)
                   | (Inr _, db2) \<Rightarrow>
                       (Inr \<lparr>resp_user = transformUserToResponse user, resp_tokens = tokens\<rparr>,
                        logAuditEvent env (user_id user) ''register'' db2))))"

definition login :: "Env \<Rightarrow> LoginRequest \<Rightarrow> DB \<Rightarrow> (exn + AuthResponse) \<times> DB" where
  "login env data db =
     (case user_findUnique_email db (login_email data) of
        None \<Rightarrow> (Inl (Api (UnauthorizedError INVALID_CREDENTIALS)), db)
      | Some user \<Rightarrow>
          if \<not> isActive user then (Inl (Api (UnauthorizedError USER_INACTIVE)), db)
          else if \<not> bcrypt_compare env (login_password data) (password user)
          then (Inl (Api (UnauthorizedError INVALID_CREDENTIALS)), db)
          else
            (case user_update (user_id user) (\<lambda>u. u\<lparr>lastLogin := Some (now env)\<rparr>) db of
               (Inl e, db1) \<Rightarrow> (Inl e, db1)
             | (Inr _, db1) \<Rightarrow>
                 let tokens = generateTokens env user in
                 (case createSession env (user_id user) (tok_refreshToken tokens) (rememberMe data) db1 of
                    (Inl e, db2) \<Rightarrow> (Inl e, db2)
                  | (Inr _, db2) \<Rightarrow>
                      (Inr \<lparr>resp_user = transformUserToResponse user, resp_tokens = tokens\<rparr>,
                       logAuditEvent env (user_id user) ''login'' db2))))"

text \<open>
  \<open>session.user\<close> is the row joined through the session's user reference; were it
  missing, reading \<open>session.user.isActive\<close> would be a \<open>TypeError\<close>.
\<close>

definition refreshToken :: "Env \<Rightarrow> RefreshTokenRequest \<Rightarrow> DB \<Rightarrow> (exn + AuthResponse) \<times> DB" where
  "refreshToken env data db =
     (case session_findUnique_refreshToken db (req_refreshToken data) of
        None \<Rightarrow> (Inl (Api (UnauthorizedError INVALID_TOKEN)), db)
      | Some session \<Rightarrow>
          if isRevoked session \<or> expiresAt session < now env
          then (Inl (Api (UnauthorizedError INVALID_TOKEN)), db)
          else
            (case user_findUnique_id db (session_userId session) of
               None \<Rightarrow> (Inl TypeError, db)
             | Some user \<Rightarrow>
                 if \<not> isActive user then (Inl (Api (UnauthorizedError USER_INACTIVE)), db)
                 else
                   let tokens = generateTokens env user in
                   (case session_update_refreshToken (session_id session) (tok_refreshToken tokens)
                           (now env) db of
                      (Inl e, db1) \<Rightarrow> (Inl e, db1)
                    | (Inr _, db1) \<Rightarrow>
                        (Inr \<lparr>resp_user = transformUserToResponse user, resp_tokens = tokens\<rparr>, db1))))"

definition logout :: "Env \<Rightarrow> string \<Rightarrow> DB \<Rightarrow> (exn + unit) \<times> DB" where
  "logout env rt db =
     (case session_findUnique_refreshToken db rt of
        None \<Rightarrow> (Inr (), db)
      | Some session \<Rightarrow>
          (case session_update_isRevoked (session_id session) db of
             (Inl e, db1) \<Rightarrow> (Inl e, db1)
           | (Inr _, db1) \<Rightarrow> (Inr (), logAuditEvent env (session_userId session) ''logout'' db1)))"

text \<open>
  The callback of the transaction in \<open>changePassword\<close>: the update of the password hash,
  then the revocation of the user's sessions. A write that fails throws with the writes
  before it applied; the rollback is the transaction's.
\<close>

definition changePassword_tx :: "Env \<Rightarrow> string \<Rightarrow> string \<Rightarrow> DB \<Rightarrow> (exn + unit) \<times> DB" where
  "changePassword_tx env userId hashedPassword tx =
     (if txFault env = UserUpdateFails then (Inl (StoreError ''P1001''), tx)
      else
        (case user_update userId (\<lambda>u. u\<lparr>password := hashedPassword\<rparr>) tx of
           (Inl e, tx1) \<Rightarrow> (Inl e, tx1)
         | (Inr _, tx1) \<Rightarrow>
             if txFault env = SessionUpdateManyFails then (Inl (StoreError ''P1001''), tx1)
             else (Inr (), session_updateMany_revoke userId tx1)))"

definition changePassword :: "Env \<Rightarrow> string \<Rightarrow> ChangePasswordRequest \<Rightarrow> DB \<Rightarrow> (exn + unit) \<times> DB" where
  "changePassword env userId data db =
     (case user_findUnique_id db userId of
        None \<Rightarrow> (Inl (Api (NotFoundError USER_NOT_FOUND)), db)
      | Some user \<Rightarrow>
          if \<not> bcrypt_compare env (currentPassword data) (password user)
          then (Inl (Api (UnauthorizedError ''Current password is incorrect'')), db)
          else
            let hashedPassword = bcrypt_hash env (newPassword data) saltRounds in
            (case transaction (changePassword_tx env userId hashedPassword) db of
               (Inl e, db1) \<Rightarrow> (Inl e, db1)
             | (Inr _, db1) \<Rightarrow> (Inr (), logAuditEvent env userId ''password_change'' db1)))"

text \<open>The body of the \<open>try\<close> block of \<open>verifyToken\<close>, then the \<open>catch\<close> clause around it.\<close>

definition verifyToken_try :: "Env \<Rightarrow> AccessToken \<Rightarrow> DB \<Rightarrow> exn + User" where
  "verifyToken_try env token db =
     (case jwt_verify token (jwtSecret env) (now env) of
        Inl e \<Rightarrow> Inl e
      | Inr decoded \<Rightarrow>
          if sub decoded = [] then Inl (Api (UnauthorizedError INVALID_TOKEN))
          else
            (case user_findUnique_id db (sub decoded) of
               None \<Rightarrow> Inl (Api (UnauthorizedError USER_NOT_FOUND))
             | Some user \<Rightarrow>
                 if \<not> isActive user then Inl (Api (UnauthorizedError USER_NOT_FOUND))
                 else Inr user))"

definition verifyToken :: "Env \<Rightarrow> AccessToken \<Rightarrow> DB \<Rightarrow> exn + User" where
  "verifyToken env token db =
     (case verifyToken_try env token db of
        Inr user \<Rightarrow> Inr user
      | Inl error \<Rightarrow>
          if instanceof_JsonWebTokenError error then Inl (Api (UnauthorizedError INVALID_TOKEN))
          else if instanceof_TokenExpiredError error then Inl (Api (UnauthorizedError TOKEN_EXPIRED))
          else Inl error)"

section \<open>common/middlewares/authMiddleware.ts\<close>

text \<open>
  The request as \<open>authorize\<close> reads it: the identity \<open>authenticate\<close> attached, if any.
  \<open>Inr ()\<close> is the call of \<open>next()\<close>.
\<close>

record Request =
  req_user :: "User option"

definition authorize :: "string list \<Rightarrow> Request \<Rightarrow> exn + unit" where
  "authorize roleNames req =
     (case req_user req of
        None \<Rightarrow> Inl (Api (UnauthorizedError UNAUTHORIZED))
      | Some user \<Rightarrow>
          if \<not> userHasAnyRole user roleNames
          then Inl (Api (UnauthorizedError INSUFFICIENT_PERMISSIONS))
          else Inr ())"

section \<open>A concrete store and environment\<close>

text \<open>
  Two identities, one active with the role \<open>admin\<close> and one deactivated, and three
  sessions of the active one: a live one, one whose expiry is the current instant, and a
  revoked one. The stand-in for bcrypt prefixes the password.
\<close>

definition admin_role :: Role where
  "admin_role = \<lparr>role_id = ''r1'', role_name = ''admin'', role_displayName = ''Administrator''\<rparr>"

definition alice :: User where
  "alice = \<lparr>user_id = ''u1'', email = ''alice@example.com'', username = Some ''alice'',
            password = ''$2b$12$wonderland'', firstName = None, lastName = None, isActive = True,
            createdAt = 1000, updatedAt = 1000, lastLogin = None,
            userRoles = [\<lparr>role = admin_role\<rparr>]\<rparr>"

definition bob :: User where
  "bob = \<lparr>user_id = ''u2'', email = ''bob@example.com'', username = None,
          password = ''$2b$12$builder'', firstName = None, lastName = None, isActive = False,
          createdAt = 2000, updatedAt = 2000, lastLogin = None, userRoles = []\<rparr>"

definition session1 :: Session where
  "session1 = \<lparr>session_id = ''s1'', session_userId = ''u1'', session_refreshToken = ''aaaa'',
               expiresAt = 900000, isRevoked = False, session_createdAt = 3000,
               session_updatedAt = 3000\<rparr>"

definition session2 :: Session where
  "session2 = \<lparr>session_id = ''s2'', session_userId = ''u1'', session_refreshToken = ''bbbb'',
               expiresAt = 500000, isRevoked = False, session_createdAt = 4000,
               session_updatedAt = 4000\<rparr>"

definition session3 :: Session where
  "session3 = \<lparr>session_id = ''s3'', session_userId = ''u1'', session_refreshToken = ''cccc'',
               expiresAt = 900000, isRevoked = True, session_createdAt = 5000,
               session_updatedAt = 5000\<rparr>"

definition db0 :: DB where
  "db0 = \<lparr>users = [alice, bob], sessions = [session1, session2, session3], auditLogs = []\<rparr>"

definition env0 :: Env where
  "env0 = \<lparr>now = 500000, randomHex = ''dddd'', newId = ''n1'',
           bcrypt_compare = (\<lambda>pw h. h = ''$2b$12$'' @ pw),
           bcrypt_hash = (\<lambda>pw r. ''$2b$12$'' @ pw),
           jwtSecret = ''your-secret-key'', auditLogFails = False, txFault = NoFault\<rparr>"



definition alice_changes_password :: ChangePasswordRequest where
  "alice_changes_password =
     \<lparr>currentPassword = ''wonderland'', newPassword = ''looking-glass'',
      confirmPassword = ''looking-glass''\<rparr>"

definition alice_logs_in :: LoginRequest where
  "alice_logs_in =
     \<lparr>login_email = ''alice@example.com'', login_password = ''wonderland'', rememberMe = False\<rparr>"

section \<open>Predicates of the statements\<close>

text \<open>The call failed, and with an error the client sees as Unauthorized.\<close>

definition fails_Unauthorized :: "exn + 'a \<Rightarrow> bool" where
  "fails_Unauthorized r = (case r of Inl e \<Rightarrow> is_Unauthorized e | Inr _ \<Rightarrow> False)"

text \<open>
  The two writes of \<open>changePassword\<close>, seen from outside: the user table of \<open>db'\<close> is that
  of \<open>db\<close> with the new hash in the row of \<open>userId\<close>, and the session table of \<open>db'\<close> is
  that of \<open>db\<close> with every session of \<open>userId\<close> that was not revoked now revoked.
\<close>

definition password_written :: "Env \<Rightarrow> string \<Rightarrow> ChangePasswordRequest \<Rightarrow> DB \<Rightarrow> DB \<Rightarrow> bool" where
  "password_written env userId d db db' =
     (users db' = map (\<lambda>u. if user_id u = userId
                            then u\<lparr>password := bcrypt_hash env (newPassword d) saltRounds\<rparr> else u)
                    (users db))"

definition sessions_revoked :: "string \<Rightarrow> DB \<Rightarrow> DB \<Rightarrow> bool" where
  "sessions_revoked userId db db' =
     (sessions db' = map (\<lambda>s. if session_userId s = userId \<and> \<not> isRevoked s
                               then s\<lparr>isRevoked := True\<rparr> else s) (sessions db))"

section \<open>Unfolding the constants\<close>

lemmas err_defs = UnauthorizedError_def NotFoundError_def ConflictError_def InternalServerError_def
  UNAUTHORIZED_401_def NOT_FOUND_404_def CONFLICT_409_def INTERNAL_SERVER_ERROR_500_def

lemmas msg_defs = INVALID_CREDENTIALS_def USER_NOT_FOUND_def USER_INACTIVE_def INVALID_TOKEN_def
  TOKEN_EXPIRED_def UNAUTHORIZED_def INSUFFICIENT_PERMISSIONS_def EMAIL_ALREADY_EXISTS_def
  USERNAME_ALREADY_EXISTS_def

lemma find_SomeD: "find P xs = Some x \<Longrightarrow> x \<in> set xs \<and> P x"
  by (induction xs) (auto split: if_splits)

lemma find_None_set: "(find P xs = None) = (\<forall>x\<in>set xs. \<not> P x)"
  by (induction xs) auto

section \<open>login\<close>

lemma login_unknown:
  "user_findUnique_email db (login_email d) = None \<Longrightarrow>
   login env d db = (Inl (Api (UnauthorizedError INVALID_CREDENTIALS)), db)"
  by (simp add: login_def)

lemma login_wrong_password:
  "user_findUnique_email db (login_email d) = Some u \<Longrightarrow> isActive u \<Longrightarrow>
   \<not> bcrypt_compare env (login_password d) (password u) \<Longrightarrow>
   login env d db = (Inl (Api (UnauthorizedError INVALID_CREDENTIALS)), db)"
  by (simp add: login_def)

lemma login_inactive:
  "user_findUnique_email db (login_email d) = Some u \<Longrightarrow> \<not> isActive u \<Longrightarrow>
   login env d db = (Inl (Api (UnauthorizedError USER_INACTIVE)), db)"
  by (simp add: login_def)

text \<open>
  C5. A login with an email that no identity has, and a login with the email of an active
  identity and a password that does not match, fail with the same error: the same class,
  the same status 401, the same code UNAUTHORIZED and the same message. Neither changes
  the store.
\<close>

theorem login_same_error:
  assumes "user_findUnique_email db1 (login_email d1) = None"
    and "user_findUnique_email db2 (login_email d2) = Some u"
    and "isActive u"
    and "\<not> bcrypt_compare env2 (login_password d2) (password u)"
  shows "fst (login env1 d1 db1) = fst (login env2 d2 db2) \<and>
         fst (login env1 d1 db1) =
           Inl (Api \<lparr>name = ''UnauthorizedError'', message = ''Invalid email or password'',
                     statusCode = 401, code = ''UNAUTHORIZED''\<rparr>) \<and>
         snd (login env1 d1 db1) = db1 \<and> snd (login env2 d2 db2) = db2"
  using assms by (simp add: login_unknown login_wrong_password err_defs msg_defs)

theorem login_same_error_witness:
  "user_findUnique_email db0 ''carol@example.com'' = None \<and>
   user_findUnique_email db0 ''alice@example.com'' = Some alice \<and> isActive alice \<and>
   \<not> bcrypt_compare env0 ''guess'' (password alice) \<and>
   fst (login env0 \<lparr>login_email = ''carol@example.com'', login_password = ''guess'',
                    rememberMe = False\<rparr> db0)
     = fst (login env0 \<lparr>login_email = ''alice@example.com'', login_password = ''guess'',
                        rememberMe = False\<rparr> db0)"
proof -
  let ?d1 = "\<lparr>login_email = ''carol@example.com'', login_password = ''guess'', rememberMe = False\<rparr>"
  let ?d2 = "\<lparr>login_email = ''alice@example.com'', login_password = ''guess'', rememberMe = False\<rparr>"
  have a: "user_findUnique_email db0 (login_email ?d1) = None"
    by (simp add: user_findUnique_email_def db0_def alice_def bob_def)
  have b: "user_findUnique_email db0 (login_email ?d2) = Some alice"
    by (simp add: user_findUnique_email_def db0_def alice_def bob_def)
  have c: "isActive alice" by (simp add: alice_def)
  have d: "\<not> bcrypt_compare env0 (login_password ?d2) (password alice)"
    by (simp add: env0_def alice_def)
  from login_same_error [OF a b c d, of env0] a b c d show ?thesis by simp
qed

text \<open>
  C10. When the identity found by the email is not active, login fails with the
  Unauthorized error whose message is "Account is deactivated" and leaves the store as it
  was. The check precedes the comparison of the password, so the outcome is the same for
  every password supplied (and every behaviour of the comparison), and the message differs
  from the one for bad credentials.
\<close>

theorem login_inactive_any_password:
  assumes "user_findUnique_email db (login_email d) = Some u" and "\<not> isActive u"
  shows "login env d db =
           (Inl (Api \<lparr>name = ''UnauthorizedError'', message = ''Account is deactivated'',
                      statusCode = 401, code = ''UNAUTHORIZED''\<rparr>), db) \<and>
         login env' (d\<lparr>login_password := p'\<rparr>) db = login env d db \<and>
         USER_INACTIVE \<noteq> INVALID_CREDENTIALS"
  using assms by (simp add: login_inactive err_defs msg_defs)

theorem login_inactive_any_password_witness:
  "user_findUnique_email db0 ''bob@example.com'' = Some bob \<and> \<not> isActive bob \<and>
   login env0 \<lparr>login_email = ''bob@example.com'', login_password = ''builder'',
               rememberMe = False\<rparr> db0
     = login env0 \<lparr>login_email = ''bob@example.com'', login_password = ''wrong'',
                   rememberMe = False\<rparr> db0"
proof -
  let ?d = "\<lparr>login_email = ''bob@example.com'', login_password = ''wrong'', rememberMe = False\<rparr>"
  have a: "user_findUnique_email db0 (login_email ?d) = Some bob"
    by (simp add: user_findUnique_email_def db0_def alice_def bob_def)
  have b: "\<not> isActive bob" by (simp add: bob_def)
  from login_inactive_any_password [OF a b, of env0 env0 "''builder''"] a b
  show ?thesis by simp
qed

section \<open>authorize\<close>

text \<open>
  C9. With an identity attached to the request, \<open>authorize\<close> calls \<open>next()\<close> exactly when
  one of the identity's role names is among the required ones, and throws the
  Unauthorized error "Insufficient permissions" exactly when none is.
\<close>

theorem authorize_any_role:
  assumes "req_user req = Some u"
  shows "(authorize rs req = Inr ()) = (\<exists>ur \<in> set (userRoles u). role_name (role ur) \<in> set rs) \<and>
         (authorize rs req =
            Inl (Api \<lparr>name = ''UnauthorizedError'', message = ''Insufficient permissions'',
                      statusCode = 401, code = ''UNAUTHORIZED''\<rparr>))
           = (\<not> (\<exists>ur \<in> set (userRoles u). role_name (role ur) \<in> set rs))"
  using assms
  by (auto simp add: authorize_def userHasAnyRole_def list_ex_iff err_defs msg_defs)

theorem authorize_any_role_witness:
  "req_user \<lparr>req_user = Some alice\<rparr> = Some alice \<and>
   authorize [''moderator'', ''admin''] \<lparr>req_user = Some alice\<rparr> = Inr () \<and>
   authorize [''moderator''] \<lparr>req_user = Some alice\<rparr> =
     Inl (Api \<lparr>name = ''UnauthorizedError'', message = ''Insufficient permissions'',
               statusCode = 401, code = ''UNAUTHORIZED''\<rparr>)"
  using authorize_any_role [of "\<lparr>req_user = Some alice\<rparr>" alice "[''moderator'', ''admin'']"]
    authorize_any_role [of "\<lparr>req_user = Some alice\<rparr>" alice "[''moderator'']"]
  by (simp add: alice_def admin_role_def)

section \<open>verifyToken\<close>

text \<open>
  The branch of the \<open>catch\<close> clause that reports "Token has expired" is never taken: the
  test for \<open>JsonWebTokenError\<close> before it holds of every \<open>TokenExpiredError\<close>.
\<close>

lemma verifyToken_never_reports_expiry:
  "verifyToken env token db \<noteq> Inl (Api (UnauthorizedError TOKEN_EXPIRED))"
proof (cases "verifyToken_try env token db")
  case (Inr u)
  then show ?thesis by (simp add: verifyToken_def)
next
  case (Inl e)
  have "e \<noteq> Api (UnauthorizedError TOKEN_EXPIRED)"
    using Inl
    by (auto simp add: verifyToken_try_def jwt_verify_def err_defs msg_defs
        split: AccessToken.splits sum.splits option.splits if_splits)
  with Inl show ?thesis
    by (cases e) (auto simp add: verifyToken_def err_defs msg_defs)
qed

text \<open>
  C4. The access token issued to alice at second 500 expires at second 1400. Verified at
  second 1400 it is rejected with the message "Invalid or expired token", the very error
  a malformed token gets, and not with "Token has expired".
\<close>

theorem verifyToken_expired_same_as_malformed:
  "accessToken (generateTokens env0 alice) =
     Signed \<lparr>sub = ''u1'', jwt_email = ''alice@example.com'', roles = [''admin''],
             iat = Some 500, exp = Some 1400\<rparr> ''your-secret-key'' \<and>
   verifyToken (env0\<lparr>now := 1400000\<rparr>) (accessToken (generateTokens env0 alice)) db0 =
     Inl (Api \<lparr>name = ''UnauthorizedError'', message = ''Invalid or expired token'',
               statusCode = 401, code = ''UNAUTHORIZED''\<rparr>) \<and>
   verifyToken (env0\<lparr>now := 1400000\<rparr>) (Malformed ''not-a-token'') db0 =
     Inl (Api \<lparr>name = ''UnauthorizedError'', message = ''Invalid or expired token'',
               statusCode = 401, code = ''UNAUTHORIZED''\<rparr>)"
  by (simp add: verifyToken_def verifyToken_try_def jwt_verify_def jwt_sign_def generateTokens_def
      env0_def alice_def admin_role_def ACCESS_TOKEN_EXPIRES_IN_def err_defs msg_defs)

section \<open>register\<close>


lemma register_existing:
  assumes "user_findFirst_email_or_username db (reg_email d) (reg_username d) = Some ex"
  shows "register env d db =
           (Inl (Api (UnauthorizedError
              (if email ex = reg_email d then EMAIL_ALREADY_EXISTS else USERNAME_ALREADY_EXISTS))), db)"
proof -
  from assms have m: "email ex = reg_email d \<or> (truthy (reg_username d) \<and> username ex = reg_username d)"
    unfolding user_findFirst_email_or_username_def by (auto dest: find_SomeD)
  have "email ex \<noteq> reg_email d \<Longrightarrow> username_strict_eq (username ex) (reg_username d)"
    using m by (cases "reg_username d") auto
  with assms show ?thesis
    by (simp add: register_def)
qed

lemma register_success_users:
  assumes "register env d db = (Inr r, db')"
  shows "user_findFirst_email_or_username db (reg_email d) (reg_username d) = None \<and>
         (\<exists>nu. users db' = users db @ [nu] \<and> email nu = reg_email d)"
proof (cases "user_findFirst_email_or_username db (reg_email d) (reg_username d)")
  case (Some ex)
  from register_existing [OF Some, of env] assms show ?thesis by simp
next
  case None
  with assms show ?thesis
    by (auto simp add: register_def user_create_def createSession_def session_create_def
        logAuditEvent_def Let_def split: if_splits prod.splits sum.splits)
qed

lemma find_append_fresh:
  "find P xs = None \<Longrightarrow> P y \<Longrightarrow> find P (xs @ [y]) = Some y"
  by (induction xs) (auto split: if_splits)




section \<open>logout\<close>

text \<open>
  C7. With a refresh token that no session row holds, \<open>logout\<close> returns normally and the
  store is exactly as before. With the token of a session row it returns normally, the
  session table is the old one with the revoked flag of that row set, no row is removed,
  and the user table is untouched.
\<close>

theorem logout_unknown_noop_known_revokes:
  "(session_findUnique_refreshToken db rt = None \<longrightarrow> logout env rt db = (Inr (), db)) \<and>
   (\<forall>s. session_findUnique_refreshToken db rt = Some s \<longrightarrow>
      fst (logout env rt db) = Inr () \<and>
      sessions (snd (logout env rt db)) =
        map (\<lambda>x. if session_id x = session_id s then x\<lparr>isRevoked := True\<rparr> else x) (sessions db) \<and>
      map session_id (sessions (snd (logout env rt db))) = map session_id (sessions db) \<and>
      (\<exists>x\<in>set (sessions (snd (logout env rt db))). session_id x = session_id s \<and> isRevoked x) \<and>
      users (snd (logout env rt db)) = users db)"
proof (intro conjI impI allI)
  assume "session_findUnique_refreshToken db rt = None"
  then show "logout env rt db = (Inr (), db)" by (simp add: logout_def)
next
  fix s
  assume f: "session_findUnique_refreshToken db rt = Some s"
  then have mem: "s \<in> set (sessions db)"
    by (auto simp add: session_findUnique_refreshToken_def dest: find_SomeD)
  then have ex: "list_ex (\<lambda>x. session_id x = session_id s) (sessions db)"
    by (auto simp add: list_ex_iff)
  have l: "logout env rt db =
      (Inr (), logAuditEvent env (session_userId s) ''logout''
         (db\<lparr>sessions := map (\<lambda>x. if session_id x = session_id s then x\<lparr>isRevoked := True\<rparr> else x)
               (sessions db)\<rparr>))"
    using f ex by (simp add: logout_def session_update_isRevoked_def)
  show "fst (logout env rt db) = Inr ()" by (simp add: l)
  show ss: "sessions (snd (logout env rt db)) =
        map (\<lambda>x. if session_id x = session_id s then x\<lparr>isRevoked := True\<rparr> else x) (sessions db)"
    by (simp add: l logAuditEvent_def)
  show "map session_id (sessions (snd (logout env rt db))) = map session_id (sessions db)"
    unfolding ss by (induction "sessions db") auto
  show "\<exists>x\<in>set (sessions (snd (logout env rt db))). session_id x = session_id s \<and> isRevoked x"
    unfolding ss using mem by (auto intro!: bexI [of _ "s\<lparr>isRevoked := True\<rparr>"] simp add: image_iff)
  show "users (snd (logout env rt db)) = users db"
    by (simp add: l logAuditEvent_def)
qed

theorem logout_unknown_noop_known_revokes_witness:
  "session_findUnique_refreshToken db0 ''garbage'' = None \<and>
   logout env0 ''garbage'' db0 = (Inr (), db0) \<and>
   session_findUnique_refreshToken db0 ''aaaa'' = Some session1 \<and>
   fst (logout env0 ''aaaa'' db0) = Inr () \<and>
   sessions (snd (logout env0 ''aaaa'' db0)) = [session1\<lparr>isRevoked := True\<rparr>, session2, session3]"
proof -
  have a: "session_findUnique_refreshToken db0 ''garbage'' = None"
    by (simp add: session_findUnique_refreshToken_def db0_def session1_def session2_def session3_def)
  have b: "session_findUnique_refreshToken db0 ''aaaa'' = Some session1"
    by (simp add: session_findUnique_refreshToken_def db0_def session1_def)
  from logout_unknown_noop_known_revokes [of db0 "''garbage''" env0] a
  have c: "logout env0 ''garbage'' db0 = (Inr (), db0)" by blast
  from logout_unknown_noop_known_revokes [of db0 "''aaaa''" env0] b
  have d: "fst (logout env0 ''aaaa'' db0) = Inr ()"
    and e: "sessions (snd (logout env0 ''aaaa'' db0)) =
        map (\<lambda>x. if session_id x = session_id session1 then x\<lparr>isRevoked := True\<rparr> else x)
          (sessions db0)"
    by blast+
  have f: "sessions (snd (logout env0 ''aaaa'' db0)) =
      [session1\<lparr>isRevoked := True\<rparr>, session2, session3]"
    unfolding e by (simp add: db0_def session1_def session2_def session3_def)
  from a c b d f show ?thesis by (intro conjI)
qed

section \<open>refreshToken\<close>

text \<open>
  C6, as stated, fails at the boundary: the session with token "bbbb" expires at the very
  instant of the call (its expiry is \<open>\<le>\<close> now), it is not revoked and its owner is active,
  and \<open>refreshToken\<close> succeeds.
\<close>

theorem refreshToken_expiry_now_counterexample:
  "session_findUnique_refreshToken db0 ''bbbb'' = Some session2 \<and>
   expiresAt session2 \<le> now env0 \<and>
   fst (refreshToken env0 \<lparr>req_refreshToken = ''bbbb''\<rparr> db0) =
     Inr \<lparr>resp_user = transformUserToResponse alice, resp_tokens = generateTokens env0 alice\<rparr>"
  by (simp add: refreshToken_def session_findUnique_refreshToken_def user_findUnique_id_def
      session_update_refreshToken_def generateTokens_def db0_def env0_def session1_def session2_def
      session3_def alice_def bob_def Let_def)

text \<open>
  C6, as the code has it. \<open>refreshToken\<close> fails with an Unauthorized error exactly when no
  session row holds the token, or the row found is revoked, or its expiry is strictly
  before now, or its owner is found and is not active; and whenever it fails so, the store
  is exactly as before.
\<close>

theorem refreshToken_unauthorized_iff:
  "fails_Unauthorized (fst (refreshToken env d db)) =
     (case session_findUnique_refreshToken db (req_refreshToken d) of
        None \<Rightarrow> True
      | Some s \<Rightarrow> isRevoked s \<or> expiresAt s < now env \<or>
          (case user_findUnique_id db (session_userId s) of None \<Rightarrow> False | Some u \<Rightarrow> \<not> isActive u)) \<and>
   (fails_Unauthorized (fst (refreshToken env d db)) \<longrightarrow> snd (refreshToken env d db) = db)"
  by (auto simp add: fails_Unauthorized_def refreshToken_def session_update_refreshToken_def
      err_defs Let_def split: option.splits if_splits)

theorem refreshToken_unauthorized_iff_witness:
  "fails_Unauthorized (fst (refreshToken env0 \<lparr>req_refreshToken = ''cccc''\<rparr> db0)) \<and>
   snd (refreshToken env0 \<lparr>req_refreshToken = ''cccc''\<rparr> db0) = db0 \<and>
   \<not> fails_Unauthorized (fst (refreshToken env0 \<lparr>req_refreshToken = ''aaaa''\<rparr> db0))"
proof -
  have a: "session_findUnique_refreshToken db0 (req_refreshToken \<lparr>req_refreshToken = ''cccc''\<rparr>)
      = Some session3"
    by (simp add: session_findUnique_refreshToken_def db0_def session1_def session2_def session3_def)
  have b: "isRevoked session3" by (simp add: session3_def)
  have c: "session_findUnique_refreshToken db0 (req_refreshToken \<lparr>req_refreshToken = ''aaaa''\<rparr>)
      = Some session1"
    by (simp add: session_findUnique_refreshToken_def db0_def session1_def)
  have d: "\<not> isRevoked session1" "\<not> expiresAt session1 < now env0"
    "user_findUnique_id db0 (session_userId session1) = Some alice" "isActive alice"
    by (simp_all add: session1_def env0_def user_findUnique_id_def db0_def alice_def)
  from refreshToken_unauthorized_iff [of env0 "\<lparr>req_refreshToken = ''cccc''\<rparr>" db0] a b
  have e: "fails_Unauthorized (fst (refreshToken env0 \<lparr>req_refreshToken = ''cccc''\<rparr> db0))"
    by simp
  with refreshToken_unauthorized_iff [of env0 "\<lparr>req_refreshToken = ''cccc''\<rparr>" db0]
  have f: "snd (refreshToken env0 \<lparr>req_refreshToken = ''cccc''\<rparr> db0) = db0" by blast
  from refreshToken_unauthorized_iff [of env0 "\<lparr>req_refreshToken = ''aaaa''\<rparr>" db0] c d
  have g: "\<not> fails_Unauthorized (fst (refreshToken env0 \<lparr>req_refreshToken = ''aaaa''\<rparr> db0))"
    by simp
  from e f g show ?thesis by (intro conjI)
qed

lemma find_distinct_key:
  "distinct (map f xs) \<Longrightarrow> x \<in> set xs \<Longrightarrow> find (\<lambda>y. f y = f x) xs = Some x"
  by (induction xs) (auto simp add: image_iff)

lemma find_map_update:
  "find (\<lambda>y. f y = k) xs = Some x \<Longrightarrow> (\<And>y. f (g y) = f y) \<Longrightarrow>
   find (\<lambda>y. f y = k) (map (\<lambda>y. if f y = k then g y else y) xs) = Some (g x)"
  by (induction xs) (auto split: if_splits)

lemma refreshToken_success:
  assumes "refreshToken env d db = (Inr r, db')"
  shows "\<exists>s u. session_findUnique_refreshToken db (req_refreshToken d) = Some s \<and>
           \<not> isRevoked s \<and> \<not> expiresAt s < now env \<and>
           user_findUnique_id db (session_userId s) = Some u \<and> isActive u \<and>
           r = \<lparr>resp_user = transformUserToResponse u, resp_tokens = generateTokens env u\<rparr> \<and>
           db' = db\<lparr>sessions :=
              map (\<lambda>x. if session_id x = session_id s
                        then x\<lparr>session_refreshToken := randomHex env, session_updatedAt := now env\<rparr>
                        else x) (sessions db)\<rparr>"
  using assms
  by (auto simp add: refreshToken_def session_update_refreshToken_def generateTokens_def Let_def
      split: option.splits if_splits)

lemma db0_wf: "db_wf db0"
  by (simp add: db_wf_def db0_def alice_def bob_def session1_def session2_def session3_def)

text \<open>
  C1. Let the store satisfy its uniqueness constraints, let the token presented be that of
  the session row \<open>s\<close>, let \<open>refreshToken\<close> succeed, and let the token it issued differ from
  the one presented. Then the session table has the same rows in the same order by id; the
  row with the id of \<open>s\<close> is \<open>s\<close> with the new token value and update time, hence with its
  id, owner, expiry and revoked flag unchanged; every other session row and the user table
  are as before; and a further call with the token presented first fails with the
  Unauthorized error "Invalid or expired token", whatever the clock and the random bytes,
  changing nothing.
\<close>

theorem refreshToken_rotates_in_place:
  assumes wf: "db_wf db"
    and found: "session_findUnique_refreshToken db (req_refreshToken d) = Some s"
    and ok: "refreshToken env d db = (Inr r, db')"
    and fresh: "tok_refreshToken (resp_tokens r) \<noteq> req_refreshToken d"
  shows "map session_id (sessions db') = map session_id (sessions db) \<and>
         session_findUnique_id db' (session_id s) =
           Some (s\<lparr>session_refreshToken := tok_refreshToken (resp_tokens r),
                   session_updatedAt := now env\<rparr>) \<and>
         (\<forall>x\<in>set (sessions db). session_id x \<noteq> session_id s \<longrightarrow> x \<in> set (sessions db')) \<and>
         users db' = users db \<and>
         refreshToken env' d db' = (Inl (Api (UnauthorizedError INVALID_TOKEN)), db')"
proof -
  let ?upd = "\<lambda>x. if session_id x = session_id s
                   then x\<lparr>session_refreshToken := randomHex env, session_updatedAt := now env\<rparr>
                   else x"
  from refreshToken_success [OF ok] found obtain u where
    r: "r = \<lparr>resp_user = transformUserToResponse u, resp_tokens = generateTokens env u\<rparr>"
    and db': "db' = db\<lparr>sessions := map ?upd (sessions db)\<rparr>"
    by auto
  have new: "tok_refreshToken (resp_tokens r) = randomHex env"
    by (simp add: r generateTokens_def Let_def)
  from found have mem: "s \<in> set (sessions db)" and tok: "session_refreshToken s = req_refreshToken d"
    by (auto simp add: session_findUnique_refreshToken_def dest: find_SomeD)
  from wf have did: "distinct (map session_id (sessions db))"
    and dtok: "distinct (map session_refreshToken (sessions db))"
    by (simp_all add: db_wf_def)
  have ids: "map session_id (sessions db') = map session_id (sessions db)"
    unfolding db' by (induction "sessions db") auto
  have byid: "find (\<lambda>y. session_id y = session_id s) (sessions db) = Some s"
    using find_distinct_key [OF did mem] .
  have row: "session_findUnique_id db' (session_id s) =
      Some (s\<lparr>session_refreshToken := tok_refreshToken (resp_tokens r), session_updatedAt := now env\<rparr>)"
    unfolding session_findUnique_id_def db' new
    using find_map_update [OF byid, of "\<lambda>x. x\<lparr>session_refreshToken := randomHex env, session_updatedAt := now env\<rparr>"]
    by simp
  have others: "\<forall>x\<in>set (sessions db). session_id x \<noteq> session_id s \<longrightarrow> x \<in> set (sessions db')"
    unfolding db' by (auto simp add: image_iff intro!: bexI)
  have gone: "\<forall>x\<in>set (sessions db'). session_refreshToken x \<noteq> req_refreshToken d"
  proof
    fix x assume "x \<in> set (sessions db')"
    then obtain y where y: "y \<in> set (sessions db)" and x: "x = ?upd y"
      unfolding db' by auto
    show "session_refreshToken x \<noteq> req_refreshToken d"
    proof (cases "session_id y = session_id s")
      case True
      with x fresh new show ?thesis by simp
    next
      case False
      then have "y \<noteq> s" by auto
      with dtok y mem have "session_refreshToken y \<noteq> session_refreshToken s"
        by (meson distinct_map inj_onD)
      with False x tok show ?thesis by simp
    qed
  qed
  then have "session_findUnique_refreshToken db' (req_refreshToken d) = None"
    by (simp add: session_findUnique_refreshToken_def find_None_set)
  then have again: "refreshToken env' d db' = (Inl (Api (UnauthorizedError INVALID_TOKEN)), db')"
    by (simp add: refreshToken_def)
  have us: "users db' = users db" by (simp add: db')
  from ids row others us again show ?thesis by simp
qed

theorem refreshToken_rotates_in_place_witness:
  "db_wf db0 \<and>
   session_findUnique_refreshToken db0 ''aaaa'' = Some session1 \<and>
   fst (refreshToken env0 \<lparr>req_refreshToken = ''aaaa''\<rparr> db0) =
     Inr \<lparr>resp_user = transformUserToResponse alice, resp_tokens = generateTokens env0 alice\<rparr> \<and>
   tok_refreshToken (generateTokens env0 alice) = ''dddd'' \<and>
   session_findUnique_id (snd (refreshToken env0 \<lparr>req_refreshToken = ''aaaa''\<rparr> db0)) ''s1'' =
     Some (session1\<lparr>session_refreshToken := ''dddd'', session_updatedAt := 500000\<rparr>) \<and>
   fst (refreshToken env0 \<lparr>req_refreshToken = ''aaaa''\<rparr>
          (snd (refreshToken env0 \<lparr>req_refreshToken = ''aaaa''\<rparr> db0))) =
     Inl (Api (UnauthorizedError INVALID_TOKEN))"
proof -
  let ?d = "\<lparr>req_refreshToken = ''aaaa''\<rparr>"
  let ?r = "\<lparr>resp_user = transformUserToResponse alice, resp_tokens = generateTokens env0 alice\<rparr>"
  have f: "session_findUnique_refreshToken db0 (req_refreshToken ?d) = Some session1"
    by (simp add: session_findUnique_refreshToken_def db0_def session1_def)
  have e: "fst (refreshToken env0 ?d db0) = Inr ?r"
    by (simp add: refreshToken_def session_findUnique_refreshToken_def user_findUnique_id_def
      session_update_refreshToken_def generateTokens_def db0_def env0_def session1_def session2_def
      session3_def alice_def bob_def Let_def)
  then have ok: "refreshToken env0 ?d db0 = (Inr ?r, snd (refreshToken env0 ?d db0))"
    by (cases "refreshToken env0 ?d db0") simp
  have n: "tok_refreshToken (generateTokens env0 alice) = ''dddd''"
    by (simp add: generateTokens_def env0_def Let_def)
  then have fr: "tok_refreshToken (resp_tokens ?r) \<noteq> req_refreshToken ?d" by simp
  from refreshToken_rotates_in_place [OF db0_wf f ok fr, of env0] db0_wf f e n
  show ?thesis by (simp add: session1_def env0_def)
qed

section \<open>changePassword\<close>

lemma changePassword_tx_cases:
  assumes "list_ex (\<lambda>u. user_id u = userId) (users db)"
  shows "transaction (changePassword_tx env userId h) db =
     (if txFault env = NoFault
      then (Inr (), session_updateMany_revoke userId
              (db\<lparr>users := map (\<lambda>u. if user_id u = userId then u\<lparr>password := h\<rparr> else u) (users db)\<rparr>))
      else (Inl (StoreError ''P1001''), db))"
  using assms
  by (cases "txFault env") (simp_all add: transaction_def changePassword_tx_def user_update_def)

lemma changePassword_tx_partial:
  "list_ex (\<lambda>u. user_id u = userId) (users db) \<Longrightarrow> txFault env = SessionUpdateManyFails \<Longrightarrow>
   snd (changePassword_tx env userId h db) =
     db\<lparr>users := map (\<lambda>u. if user_id u = userId then u\<lparr>password := h\<rparr> else u) (users db)\<rparr>"
  by (simp add: changePassword_tx_def user_update_def)

lemma changePassword_cases:
  "changePassword env userId d db =
     (case user_findUnique_id db userId of
        None \<Rightarrow> (Inl (Api (NotFoundError USER_NOT_FOUND)), db)
      | Some user \<Rightarrow>
          if \<not> bcrypt_compare env (currentPassword d) (password user)
          then (Inl (Api (UnauthorizedError ''Current password is incorrect'')), db)
          else if txFault env \<noteq> NoFault then (Inl (StoreError ''P1001''), db)
          else (Inr (), logAuditEvent env userId ''password_change''
                  (session_updateMany_revoke userId
                    (db\<lparr>users := map (\<lambda>u. if user_id u = userId
                        then u\<lparr>password := bcrypt_hash env (newPassword d) saltRounds\<rparr> else u)
                      (users db)\<rparr>))))"
proof (cases "user_findUnique_id db userId")
  case None
  then show ?thesis by (simp add: changePassword_def)
next
  case (Some user)
  then have "list_ex (\<lambda>u. user_id u = userId) (users db)"
    by (auto simp add: user_findUnique_id_def list_ex_iff dest: find_SomeD)
  with Some show ?thesis
    by (simp add: changePassword_def changePassword_tx_cases Let_def)
qed

lemma updateMany_revokes_all:
  "\<forall>s\<in>set (map (\<lambda>s. if session_userId s = userId \<and> \<not> isRevoked s
                          then s\<lparr>isRevoked := True\<rparr> else s) xs).
      session_userId s = userId \<longrightarrow> isRevoked s"
proof (intro ballI impI)
  fix s
  assume m: "s \<in> set (map (\<lambda>s. if session_userId s = userId \<and> \<not> isRevoked s
                          then s\<lparr>isRevoked := True\<rparr> else s) xs)"
    and u: "session_userId s = userId"
  from m obtain y where y: "s = (if session_userId y = userId \<and> \<not> isRevoked y
                          then y\<lparr>isRevoked := True\<rparr> else y)"
    unfolding set_map by blast
  show "isRevoked s"
  proof (cases "session_userId y = userId \<and> \<not> isRevoked y")
    case True
    with y show ?thesis by simp
  next
    case False
    with y have "s = y" by simp
    with False u show ?thesis by simp
  qed
qed

lemma changePassword_Inr:
  "fst (changePassword env userId d db) = Inr () \<Longrightarrow>
   changePassword env userId d db =
     (Inr (), logAuditEvent env userId ''password_change''
        (session_updateMany_revoke userId
           (db\<lparr>users := map (\<lambda>u. if user_id u = userId
                 then u\<lparr>password := bcrypt_hash env (newPassword d) saltRounds\<rparr> else u)
               (users db)\<rparr>)))"
  by (cases "user_findUnique_id db userId") (simp_all add: changePassword_cases split: if_splits)

lemma changePassword_Inl:
  "fst (changePassword env userId d db) = Inl e \<Longrightarrow> snd (changePassword env userId d db) = db"
  by (cases "user_findUnique_id db userId") (simp_all add: changePassword_cases split: if_splits)

text \<open>
  C2. When the identity exists, the current password matches and no write fails,
  \<open>changePassword\<close> succeeds, the password hash of that identity is the new hash and
  every session of the identity is revoked. Whenever it succeeds, both writes have been
  made. Whenever it fails, the store is exactly as before: for a missing identity (Not
  Found), a password that does not match (Unauthorized), and a failure of either write
  inside the transaction, also of the second one after the first was made.
\<close>

theorem changePassword_atomic:
  "(\<forall>u. user_findUnique_id db userId = Some u \<and>
        bcrypt_compare env (currentPassword d) (password u) \<and> txFault env = NoFault \<longrightarrow>
      fst (changePassword env userId d db) = Inr () \<and>
      password_written env userId d db (snd (changePassword env userId d db)) \<and>
      sessions_revoked userId db (snd (changePassword env userId d db)) \<and>
      (\<forall>s\<in>set (sessions (snd (changePassword env userId d db))).
          session_userId s = userId \<longrightarrow> isRevoked s)) \<and>
   (fst (changePassword env userId d db) = Inr () \<longrightarrow>
      password_written env userId d db (snd (changePassword env userId d db)) \<and>
      sessions_revoked userId db (snd (changePassword env userId d db))) \<and>
   (\<forall>e. fst (changePassword env userId d db) = Inl e \<longrightarrow> snd (changePassword env userId d db) = db) \<and>
   (user_findUnique_id db userId = None \<longrightarrow>
      changePassword env userId d db = (Inl (Api (NotFoundError USER_NOT_FOUND)), db)) \<and>
   (\<forall>u. user_findUnique_id db userId = Some u \<and>
        \<not> bcrypt_compare env (currentPassword d) (password u) \<longrightarrow>
      changePassword env userId d db =
        (Inl (Api (UnauthorizedError ''Current password is incorrect'')), db)) \<and>
   (\<forall>u. user_findUnique_id db userId = Some u \<and>
        bcrypt_compare env (currentPassword d) (password u) \<and> txFault env \<noteq> NoFault \<longrightarrow>
      changePassword env userId d db = (Inl (StoreError ''P1001''), db))"
proof -
  let ?db2 = "logAuditEvent env userId ''password_change''
               (session_updateMany_revoke userId
                 (db\<lparr>users := map (\<lambda>u. if user_id u = userId
                     then u\<lparr>password := bcrypt_hash env (newPassword d) saltRounds\<rparr> else u)
                   (users db)\<rparr>))"
  have w: "password_written env userId d db ?db2"
    by (simp add: password_written_def session_updateMany_revoke_def logAuditEvent_def)
  have r: "sessions_revoked userId db ?db2"
    by (simp add: sessions_revoked_def session_updateMany_revoke_def logAuditEvent_def)
  have s2: "sessions ?db2 = map (\<lambda>s. if session_userId s = userId \<and> \<not> isRevoked s
                                       then s\<lparr>isRevoked := True\<rparr> else s) (sessions db)"
    using r unfolding sessions_revoked_def .
  have a: "\<forall>s\<in>set (sessions ?db2). session_userId s = userId \<longrightarrow> isRevoked s"
    unfolding s2 by (rule updateMany_revokes_all)
  have c1: "\<forall>u. user_findUnique_id db userId = Some u \<and>
        bcrypt_compare env (currentPassword d) (password u) \<and> txFault env = NoFault \<longrightarrow>
      fst (changePassword env userId d db) = Inr () \<and>
      password_written env userId d db (snd (changePassword env userId d db)) \<and>
      sessions_revoked userId db (snd (changePassword env userId d db)) \<and>
      (\<forall>s\<in>set (sessions (snd (changePassword env userId d db))).
          session_userId s = userId \<longrightarrow> isRevoked s)"
  proof (intro allI impI)
    fix u
    assume "user_findUnique_id db userId = Some u \<and>
        bcrypt_compare env (currentPassword d) (password u) \<and> txFault env = NoFault"
    then have "changePassword env userId d db = (Inr (), ?db2)"
      by (simp add: changePassword_cases)
    then have "fst (changePassword env userId d db) = Inr ()"
      and "snd (changePassword env userId d db) = ?db2" by simp_all
    with w r a show "fst (changePassword env userId d db) = Inr () \<and>
      password_written env userId d db (snd (changePassword env userId d db)) \<and>
      sessions_revoked userId db (snd (changePassword env userId d db)) \<and>
      (\<forall>s\<in>set (sessions (snd (changePassword env userId d db))).
          session_userId s = userId \<longrightarrow> isRevoked s)" by (simp only: simp_thms)
  qed
  have c2: "fst (changePassword env userId d db) = Inr () \<longrightarrow>
      password_written env userId d db (snd (changePassword env userId d db)) \<and>
      sessions_revoked userId db (snd (changePassword env userId d db))"
  proof
    assume "fst (changePassword env userId d db) = Inr ()"
    from changePassword_Inr [OF this] have "snd (changePassword env userId d db) = ?db2" by simp
    with w r show "password_written env userId d db (snd (changePassword env userId d db)) \<and>
      sessions_revoked userId db (snd (changePassword env userId d db))" by (simp only: simp_thms)
  qed
  have c3: "\<forall>e. fst (changePassword env userId d db) = Inl e \<longrightarrow> snd (changePassword env userId d db) = db"
    using changePassword_Inl by blast
  have c4: "user_findUnique_id db userId = None \<longrightarrow>
      changePassword env userId d db = (Inl (Api (NotFoundError USER_NOT_FOUND)), db)"
    by (simp add: changePassword_cases)
  have c5: "\<forall>u. user_findUnique_id db userId = Some u \<and>
        \<not> bcrypt_compare env (currentPassword d) (password u) \<longrightarrow>
      changePassword env userId d db =
        (Inl (Api (UnauthorizedError ''Current password is incorrect'')), db)"
    by (simp add: changePassword_cases)
  have c6: "\<forall>u. user_findUnique_id db userId = Some u \<and>
        bcrypt_compare env (currentPassword d) (password u) \<and> txFault env \<noteq> NoFault \<longrightarrow>
      changePassword env userId d db = (Inl (StoreError ''P1001''), db)"
    by (simp add: changePassword_cases)
  show ?thesis by (intro conjI c1 c2 c3 c4 c5 c6)
qed


theorem changePassword_atomic_witness:
  "user_findUnique_id db0 ''u1'' = Some alice \<and>
   bcrypt_compare env0 (currentPassword alice_changes_password) (password alice) \<and>
   txFault env0 = NoFault \<and>
   fst (changePassword env0 ''u1'' alice_changes_password db0) = Inr () \<and>
   users (snd (changePassword env0 ''u1'' alice_changes_password db0)) =
     [alice\<lparr>password := ''$2b$12$looking-glass''\<rparr>, bob] \<and>
   sessions (snd (changePassword env0 ''u1'' alice_changes_password db0)) =
     [session1\<lparr>isRevoked := True\<rparr>, session2\<lparr>isRevoked := True\<rparr>, session3] \<and>
   snd (changePassword env0 ''u1'' alice_changes_password db0) \<noteq> db0 \<and>
   user_findUnique_id (snd (changePassword_tx (env0\<lparr>txFault := SessionUpdateManyFails\<rparr>) ''u1''
       ''$2b$12$looking-glass'' db0)) ''u1'' = Some (alice\<lparr>password := ''$2b$12$looking-glass''\<rparr>) \<and>
   changePassword (env0\<lparr>txFault := SessionUpdateManyFails\<rparr>) ''u1'' alice_changes_password db0 =
     (Inl (StoreError ''P1001''), db0)"
proof -
  let ?f = "env0\<lparr>txFault := SessionUpdateManyFails\<rparr>"
  have f: "user_findUnique_id db0 ''u1'' = Some alice"
    by (simp add: user_findUnique_id_def db0_def alice_def)
  have c: "bcrypt_compare env0 (currentPassword alice_changes_password) (password alice)"
    by (simp add: env0_def alice_changes_password_def alice_def)
  have c': "bcrypt_compare ?f (currentPassword alice_changes_password) (password alice)"
    by (simp add: env0_def alice_changes_password_def alice_def)
  have n: "txFault env0 = NoFault" by (simp add: env0_def)
  have n': "txFault ?f \<noteq> NoFault" by simp
  from changePassword_atomic [of db0 "''u1''" env0 alice_changes_password] f c n
  have ok: "fst (changePassword env0 ''u1'' alice_changes_password db0) = Inr ()"
    and pw: "password_written env0 ''u1'' alice_changes_password db0
               (snd (changePassword env0 ''u1'' alice_changes_password db0))"
    and rv: "sessions_revoked ''u1'' db0 (snd (changePassword env0 ''u1'' alice_changes_password db0))"
    by blast+
  from changePassword_atomic [of db0 "''u1''" ?f alice_changes_password] f c' n'
  have fail: "changePassword ?f ''u1'' alice_changes_password db0 = (Inl (StoreError ''P1001''), db0)"
    by blast
  have us: "users (snd (changePassword env0 ''u1'' alice_changes_password db0)) =
     [alice\<lparr>password := ''$2b$12$looking-glass''\<rparr>, bob]"
    using pw by (simp add: password_written_def db0_def alice_def bob_def env0_def
        alice_changes_password_def)
  have ss: "sessions (snd (changePassword env0 ''u1'' alice_changes_password db0)) =
     [session1\<lparr>isRevoked := True\<rparr>, session2\<lparr>isRevoked := True\<rparr>, session3]"
    using rv by (simp add: sessions_revoked_def db0_def session1_def session2_def session3_def)
  have ne: "snd (changePassword env0 ''u1'' alice_changes_password db0) \<noteq> db0"
  proof
    assume "snd (changePassword env0 ''u1'' alice_changes_password db0) = db0"
    with us have "users db0 = [alice\<lparr>password := ''$2b$12$looking-glass''\<rparr>, bob]" by simp
    then show False by (simp add: db0_def alice_def)
  qed
  have part: "user_findUnique_id (snd (changePassword_tx ?f ''u1'' ''$2b$12$looking-glass'' db0)) ''u1''
      = Some (alice\<lparr>password := ''$2b$12$looking-glass''\<rparr>)"
    by (simp add: changePassword_tx_def user_update_def user_findUnique_id_def db0_def alice_def bob_def)
  from f c n ok us ss ne part fail show ?thesis by (intro conjI)
qed

section \<open>generateTokens and verifyToken\<close>

text \<open>
  C8. Let \<open>generateTokens\<close> be given the identity \<open>u\<close>, with a non-empty id, and let the
  store hold under that id an active row \<open>w\<close> with the same set of role names (\<open>w\<close> may
  differ from \<open>u\<close> otherwise: \<open>login\<close> passes the row it read before it wrote the last
  login). The access token issued for \<open>u\<close> is a signed structure whose payload holds the
  id of \<open>u\<close> and its role names, and verifying it with the same secret before its expiry
  returns the stored row \<open>w\<close>, whose id is the one in the payload and whose set of role
  names is the one in the payload.
\<close>

theorem generateTokens_verifyToken_roundtrip:
  assumes "user_findUnique_id db (user_id u) = Some w"
    and "isActive w"
    and "set (map (\<lambda>ur. role_name (role ur)) (userRoles w)) =
         set (map (\<lambda>ur. role_name (role ur)) (userRoles u))"
    and "user_id u \<noteq> []"
    and "jwtSecret env' = jwtSecret env"
    and "now env' div 1000 < now env div 1000 + 900"
  shows "\<exists>p k. accessToken (generateTokens env u) = Signed p k \<and>
           sub p = user_id u \<and> roles p = map (\<lambda>ur. role_name (role ur)) (userRoles u) \<and>
           verifyToken env' (accessToken (generateTokens env u)) db = Inr w \<and>
           user_id w = sub p \<and>
           set (map (\<lambda>ur. role_name (role ur)) (userRoles w)) = set (roles p)"
proof -
  let ?p = "\<lparr>sub = user_id u, jwt_email = email u,
             roles = map (\<lambda>ur. role_name (role ur)) (userRoles u),
             iat = Some (now env div 1000), exp = Some (now env div 1000 + 900)\<rparr>"
  have t: "accessToken (generateTokens env u) = Signed ?p (jwtSecret env)"
    by (simp add: generateTokens_def jwt_sign_def ACCESS_TOKEN_EXPIRES_IN_def Let_def)
  from assms(1) have id: "user_id w = user_id u"
    by (auto simp add: user_findUnique_id_def dest: find_SomeD)
  have v: "verifyToken env' (Signed ?p (jwtSecret env)) db = Inr w"
    using assms(1,2,4,5,6)
    by (simp add: verifyToken_def verifyToken_try_def jwt_verify_def)
  from t v id assms(3) show ?thesis by simp
qed

text \<open>
  The witness is the call in \<open>login\<close>: alice logs in, the store then holds her row with
  the last login written, and the token issued for the row read before verifies there.
\<close>

theorem generateTokens_verifyToken_roundtrip_witness:
  "fst (login env0 alice_logs_in db0) =
     Inr \<lparr>resp_user = transformUserToResponse alice, resp_tokens = generateTokens env0 alice\<rparr> \<and>
   user_findUnique_id (snd (login env0 alice_logs_in db0)) (user_id alice) =
     Some (alice\<lparr>lastLogin := Some 500000\<rparr>) \<and>
   alice\<lparr>lastLogin := Some 500000\<rparr> \<noteq> alice \<and>
   isActive (alice\<lparr>lastLogin := Some 500000\<rparr>) \<and> user_id alice \<noteq> [] \<and>
   accessToken (generateTokens env0 alice) =
     Signed \<lparr>sub = ''u1'', jwt_email = ''alice@example.com'', roles = [''admin''],
             iat = Some 500, exp = Some 1400\<rparr> ''your-secret-key'' \<and>
   verifyToken env0 (accessToken (generateTokens env0 alice)) (snd (login env0 alice_logs_in db0)) =
     Inr (alice\<lparr>lastLogin := Some 500000\<rparr>)"
proof -
  let ?w = "alice\<lparr>lastLogin := Some 500000\<rparr>"
  let ?db = "snd (login env0 alice_logs_in db0)"
  have l: "login env0 alice_logs_in db0 =
      (Inr \<lparr>resp_user = transformUserToResponse alice, resp_tokens = generateTokens env0 alice\<rparr>,
       logAuditEvent env0 ''u1'' ''login''
         (snd (createSession env0 ''u1'' ''dddd'' False
            (db0\<lparr>users := [?w, bob]\<rparr>))))"
    by (simp add: login_def user_findUnique_email_def user_update_def createSession_def
        session_create_def generateTokens_def alice_logs_in_def db0_def env0_def alice_def bob_def
        session1_def session2_def session3_def Let_def)
  have us: "users ?db = [?w, bob]"
    unfolding l by (simp add: logAuditEvent_def createSession_def session_create_def Let_def)
  have a: "user_findUnique_id ?db (user_id alice) = Some ?w"
    unfolding user_findUnique_id_def us by (simp add: alice_def)
  have b: "isActive ?w" and c: "user_id alice \<noteq> []" and n: "?w \<noteq> alice"
    by (simp_all add: alice_def)
  have r: "set (map (\<lambda>ur. role_name (role ur)) (userRoles ?w)) =
           set (map (\<lambda>ur. role_name (role ur)) (userRoles alice))" by simp
  have d: "jwtSecret env0 = jwtSecret env0" by simp
  have e: "now env0 div 1000 < now env0 div 1000 + 900" by simp
  have t: "accessToken (generateTokens env0 alice) =
     Signed \<lparr>sub = ''u1'', jwt_email = ''alice@example.com'', roles = [''admin''],
             iat = Some 500, exp = Some 1400\<rparr> ''your-secret-key''"
    by (simp add: generateTokens_def jwt_sign_def env0_def alice_def admin_role_def
        ACCESS_TOKEN_EXPIRES_IN_def Let_def)
  from generateTokens_verifyToken_roundtrip [OF a b r c d e]
  have v: "verifyToken env0 (accessToken (generateTokens env0 alice)) ?db = Inr ?w"
    by blast
  from l have f: "fst (login env0 alice_logs_in db0) =
     Inr \<lparr>resp_user = transformUserToResponse alice, resp_tokens = generateTokens env0 alice\<rparr>"
    by simp
  from f a n b c t v show ?thesis by (intro conjI)
qed

section \<open>The call sites of generateTokens\<close>

text \<open>
  What the three callers pass and what the store holds when they return. \<open>login\<close> issues
  the tokens for the row it read, and the store then holds that row with the last login
  written. \<open>refreshToken\<close> and \<open>register\<close> issue them for the row the store holds. In
  each case the row stored under the id is active and has the role assignments of the row
  the tokens were issued for.
\<close>

lemma login_call_site:
  assumes wf: "db_wf db" and ok: "login env d db = (Inr r, db')"
  shows "\<exists>u. user_findUnique_email db (login_email d) = Some u \<and> isActive u \<and>
           resp_tokens r = generateTokens env u \<and>
           user_findUnique_id db' (user_id u) = Some (u\<lparr>lastLogin := Some (now env)\<rparr>)"
proof (cases "user_findUnique_email db (login_email d)")
  case None
  with ok show ?thesis by (simp add: login_def)
next
  case (Some u)
  let ?f = "\<lambda>x. if user_id x = user_id u then x\<lparr>lastLogin := Some (now env)\<rparr> else x"
  from Some have mem: "u \<in> set (users db)"
    by (auto simp add: user_findUnique_email_def dest: find_SomeD)
  then have ex: "list_ex (\<lambda>x. user_id x = user_id u) (users db)" by (auto simp add: list_ex_iff)
  from ok Some have act: "isActive u"
    by (auto simp add: login_def split: if_splits)
  from ok Some act have pw: "bcrypt_compare env (login_password d) (password u)"
    by (auto simp add: login_def split: if_splits)
  obtain e2 db2 where r2:
    "createSession env (user_id u) (tok_refreshToken (generateTokens env u)) (rememberMe d)
       (db\<lparr>users := map ?f (users db)\<rparr>) = (e2, db2)"
    by (cases "createSession env (user_id u) (tok_refreshToken (generateTokens env u)) (rememberMe d)
       (db\<lparr>users := map ?f (users db)\<rparr>)") auto
  have us2: "users db2 = map ?f (users db)"
    using r2 by (auto simp add: createSession_def session_create_def Let_def split: if_splits)
  from ok Some act pw ex r2 have res: "resp_tokens r = generateTokens env u"
    and db': "db' = logAuditEvent env (user_id u) ''login'' db2"
    by (cases e2; simp add: login_def user_update_def Let_def; fastforce)+
  from wf have "distinct (map user_id (users db))" by (simp add: db_wf_def)
  from find_distinct_key [OF this mem]
  have "find (\<lambda>y. user_id y = user_id u) (users db) = Some u" .
  from find_map_update [OF this, of "\<lambda>x. x\<lparr>lastLogin := Some (now env)\<rparr>"]
  have "find (\<lambda>y. user_id y = user_id u) (map ?f (users db)) = Some (u\<lparr>lastLogin := Some (now env)\<rparr>)"
    by simp
  then have "user_findUnique_id db' (user_id u) = Some (u\<lparr>lastLogin := Some (now env)\<rparr>)"
    by (simp add: user_findUnique_id_def db' logAuditEvent_def us2)
  with Some act res show ?thesis by simp
qed

lemma refreshToken_call_site:
  assumes ok: "refreshToken env d db = (Inr r, db')"
  shows "\<exists>u. isActive u \<and> resp_tokens r = generateTokens env u \<and>
           user_findUnique_id db' (user_id u) = Some u"
  using refreshToken_success [OF ok]
proof (elim exE conjE)
  fix s u
  assume f: "user_findUnique_id db (session_userId s) = Some u" and a: "isActive u"
    and r: "r = \<lparr>resp_user = transformUserToResponse u, resp_tokens = generateTokens env u\<rparr>"
    and db': "db' = db\<lparr>sessions :=
              map (\<lambda>x. if session_id x = session_id s
                        then x\<lparr>session_refreshToken := randomHex env, session_updatedAt := now env\<rparr>
                        else x) (sessions db)\<rparr>"
  have us: "users db' = users db" by (simp add: db')
  from f have "user_id u = session_userId s"
    by (auto simp add: user_findUnique_id_def dest: find_SomeD)
  with f us have "user_findUnique_id db' (user_id u) = Some u"
    by (simp add: user_findUnique_id_def)
  moreover from r have "resp_tokens r = generateTokens env u" by simp
  ultimately show ?thesis using a by blast
qed

lemma register_call_site:
  assumes ok: "register env d db = (Inr r, db')"
  shows "\<exists>u. isActive u \<and> resp_tokens r = generateTokens env u \<and>
           user_findUnique_id db' (user_id u) = Some u"
proof -
  from register_success_users [OF ok]
  have none: "user_findFirst_email_or_username db (reg_email d) (reg_username d) = None" by simp
  let ?c = "user_create env (reg_email d) (reg_username d) (bcrypt_hash env (reg_password d) saltRounds)
              (reg_firstName d) (reg_lastName d) db"
  obtain e1 db1 where r1: "?c = (e1, db1)" by (cases ?c) auto
  from ok none r1 obtain u where e1: "e1 = Inr u"
    by (cases e1) (auto simp add: register_def Let_def)
  from r1 e1 have fresh: "find (\<lambda>y. user_id y = user_id u) (users db) = None"
    and u1: "users db1 = users db @ [u]" and act: "isActive u"
    by (auto simp add: user_create_def Let_def list_ex_iff find_None_set split: if_splits)
  obtain e2 db2 where r2:
    "createSession env (user_id u) (tok_refreshToken (generateTokens env u)) False db1 = (e2, db2)"
    by (cases "createSession env (user_id u) (tok_refreshToken (generateTokens env u)) False db1") auto
  have us2: "users db2 = users db1"
    using r2 by (auto simp add: createSession_def session_create_def Let_def split: if_splits)
  from ok none r1 e1 r2 have res: "resp_tokens r = generateTokens env u"
    and db': "db' = logAuditEvent env (user_id u) ''register'' db2"
    by (cases e2; simp add: register_def Let_def; fastforce)+
  from find_append_fresh [OF fresh, of u]
  have "user_findUnique_id db' (user_id u) = Some u"
    by (simp add: user_findUnique_id_def db' logAuditEvent_def us2 u1)
  with act res show ?thesis by auto
qed

section \<open>The uniqueness constraints are an invariant\<close>

text \<open>
  Every operation of the service keeps the uniqueness constraints of the store, whether
  it succeeds or fails: a rotation writes a token value only when no other row holds it,
  and a created row has an id, email and token that no row has.
\<close>

lemma distinct_rotate:
  assumes "distinct (map session_id xs)" and "distinct (map session_refreshToken xs)"
    and "\<forall>x\<in>set xs. session_id x \<noteq> i \<longrightarrow> session_refreshToken x \<noteq> rt"
  shows "distinct (map session_refreshToken
           (map (\<lambda>s. if session_id s = i then s\<lparr>session_refreshToken := rt, session_updatedAt := t\<rparr> else s) xs))"
  using assms
proof (induction xs)
  case Nil
  then show ?case by simp
next
  case (Cons x xs)
  let ?u = "\<lambda>s. if session_id s = i then s\<lparr>session_refreshToken := rt, session_updatedAt := t\<rparr> else s"
  from Cons have ih: "distinct (map session_refreshToken (map ?u xs))" by simp
  have notin: "session_refreshToken (?u x) \<notin> set (map session_refreshToken (map ?u xs))"
  proof
    assume "session_refreshToken (?u x) \<in> set (map session_refreshToken (map ?u xs))"
    then obtain y where y: "y \<in> set xs" and eq: "session_refreshToken (?u y) = session_refreshToken (?u x)"
      by auto
    from Cons.prems y have idne: "session_id y \<noteq> session_id x" by (auto simp add: image_iff)
    from Cons.prems y have tokne: "session_refreshToken y \<noteq> session_refreshToken x"
      by (auto simp add: image_iff)
    show False
    proof (cases "session_id x = i")
      case True
      with idne have "session_id y \<noteq> i" by simp
      with Cons.prems y have "session_refreshToken y \<noteq> rt" by simp
      with True \<open>session_id y \<noteq> i\<close> eq show False by simp
    next
      case False
      with Cons.prems have xr: "session_refreshToken x \<noteq> rt" by simp
      show False
      proof (cases "session_id y = i")
        case True
        with False eq xr show False by simp
      next
        case F2: False
        with False eq tokne show False by simp
      qed
    qed
  qed
  from ih notin show ?case by simp
qed

lemma db_wf_sessions:
  "db_wf (db\<lparr>sessions := ys\<rparr>) =
     (distinct (map user_id (users db)) \<and> distinct (map email (users db)) \<and>
      distinct (map session_id ys) \<and> distinct (map session_refreshToken ys))"
  by (simp add: db_wf_def)

lemma session_update_refreshToken_wf:
  assumes "db_wf db"
  shows "db_wf (snd (session_update_refreshToken i rt t db))"
proof (cases "\<not> list_ex (\<lambda>s. session_id s = i) (sessions db) \<or>
              list_ex (\<lambda>s. session_id s \<noteq> i \<and> session_refreshToken s = rt) (sessions db)")
  case True
  with assms show ?thesis by (auto simp add: session_update_refreshToken_def)
next
  case False
  then have free: "\<forall>x\<in>set (sessions db). session_id x \<noteq> i \<longrightarrow> session_refreshToken x \<noteq> rt"
    by (auto simp add: list_ex_iff)
  from assms have d1: "distinct (map session_id (sessions db))"
    and d2: "distinct (map session_refreshToken (sessions db))"
    and du: "distinct (map user_id (users db))" and de: "distinct (map email (users db))"
    by (simp_all add: db_wf_def)
  let ?u = "\<lambda>s. if session_id s = i then s\<lparr>session_refreshToken := rt, session_updatedAt := t\<rparr> else s"
  have "map session_id (map ?u (sessions db)) = map session_id (sessions db)"
    by (induction "sessions db") auto
  with d1 have ids: "distinct (map session_id (map ?u (sessions db)))" by (simp only:)
  have toks: "distinct (map session_refreshToken (map ?u (sessions db)))"
    using distinct_rotate [OF d1 d2 free] .
  have eq: "snd (session_update_refreshToken i rt t db) = db\<lparr>sessions := map ?u (sessions db)\<rparr>"
    using False by (simp add: session_update_refreshToken_def)
  show ?thesis unfolding eq db_wf_sessions using du de ids toks by (intro conjI)
qed

lemma refreshToken_preserves_wf:
  assumes "db_wf db"
  shows "db_wf (snd (refreshToken env d db))"
proof (cases "session_findUnique_refreshToken db (req_refreshToken d)")
  case None
  with assms show ?thesis by (simp add: refreshToken_def)
next
  case (Some s)
  show ?thesis
  proof (cases "user_findUnique_id db (session_userId s)")
    case None
    with Some assms show ?thesis by (simp add: refreshToken_def)
  next
    case (Some u)
    show ?thesis
    proof (cases "isRevoked s \<or> expiresAt s < now env \<or> \<not> isActive u")
      case True
      with Some \<open>session_findUnique_refreshToken db (req_refreshToken d) = Some s\<close> assms
      show ?thesis by (auto simp add: refreshToken_def)
    next
      case False
      with Some \<open>session_findUnique_refreshToken db (req_refreshToken d) = Some s\<close>
      have "snd (refreshToken env d db) =
              snd (session_update_refreshToken (session_id s)
                     (tok_refreshToken (generateTokens env u)) (now env) db)"
        by (simp add: refreshToken_def Let_def split: prod.splits sum.splits)
      with session_update_refreshToken_wf [OF assms] show ?thesis by simp
    qed
  qed
qed


lemma logAuditEvent_wf: "db_wf (logAuditEvent env u a db) = db_wf db"
  by (simp add: logAuditEvent_def db_wf_def)

lemma session_create_wf:
  assumes "db_wf db"
  shows "db_wf (snd (session_create env uid rt ex db))"
  using assms
  by (auto simp add: session_create_def db_wf_def list_ex_iff)

lemma session_update_isRevoked_wf:
  assumes "db_wf db"
  shows "db_wf (snd (session_update_isRevoked i db))"
proof -
  let ?u = "\<lambda>s. if session_id s = i then s\<lparr>isRevoked := True\<rparr> else s"
  have "map session_id (map ?u (sessions db)) = map session_id (sessions db)"
    and "map session_refreshToken (map ?u (sessions db)) = map session_refreshToken (sessions db)"
    by (induction "sessions db") auto
  with assms have "db_wf (db\<lparr>sessions := map ?u (sessions db)\<rparr>)"
    unfolding db_wf_sessions by (simp only: db_wf_def simp_thms)
  with assms show ?thesis by (simp add: session_update_isRevoked_def)
qed

lemma session_updateMany_revoke_wf:
  assumes "db_wf db"
  shows "db_wf (session_updateMany_revoke uid db)"
proof -
  let ?u = "\<lambda>s. if session_userId s = uid \<and> \<not> isRevoked s then s\<lparr>isRevoked := True\<rparr> else s"
  have "map session_id (map ?u (sessions db)) = map session_id (sessions db)"
    and "map session_refreshToken (map ?u (sessions db)) = map session_refreshToken (sessions db)"
    by (induction "sessions db") auto
  with assms have "db_wf (db\<lparr>sessions := map ?u (sessions db)\<rparr>)"
    unfolding db_wf_sessions by (simp only: db_wf_def simp_thms)
  then show ?thesis by (simp add: session_updateMany_revoke_def)
qed

lemma users_map_wf:
  assumes "db_wf db" and "\<And>u. user_id (f u) = user_id u" and "\<And>u. email (f u) = email u"
  shows "db_wf (db\<lparr>users := map (\<lambda>u. if user_id u = i then f u else u) (users db)\<rparr>)"
proof -
  let ?u = "\<lambda>u. if user_id u = i then f u else u"
  have "map user_id (map ?u (users db)) = map user_id (users db)"
    and "map email (map ?u (users db)) = map email (users db)"
    using assms(2,3) by (induction "users db") auto
  with assms(1) show ?thesis
    by (simp add: db_wf_def del: map_map)
qed

lemma user_update_wf:
  assumes "db_wf db" and "\<And>u. user_id (f u) = user_id u" and "\<And>u. email (f u) = email u"
  shows "db_wf (snd (user_update i f db))"
  using assms(1) users_map_wf [OF assms, of i] by (simp add: user_update_def)

lemma user_create_wf:
  assumes "db_wf db"
  shows "db_wf (snd (user_create env e un pw fname lname db))"
  using assms
  by (auto simp add: user_create_def db_wf_def list_ex_iff Let_def)

lemma createSession_wf:
  assumes "db_wf db"
  shows "db_wf (snd (createSession env uid rt remember db))"
  using session_create_wf [OF assms] by (simp add: createSession_def Let_def)

lemma login_preserves_wf:
  assumes "db_wf db"
  shows "db_wf (snd (login env d db))"
proof (cases "user_findUnique_email db (login_email d)")
  case None
  with assms show ?thesis by (simp add: login_def)
next
  case (Some u)
  obtain e1 db1 where r1:
    "user_update (user_id u) (\<lambda>u. u\<lparr>lastLogin := Some (now env)\<rparr>) db = (e1, db1)"
    by (cases "user_update (user_id u) (\<lambda>u. u\<lparr>lastLogin := Some (now env)\<rparr>) db") auto
  obtain e2 db2 where r2:
    "createSession env (user_id u) (tok_refreshToken (generateTokens env u)) (rememberMe d) db1 = (e2, db2)"
    by (cases "createSession env (user_id u) (tok_refreshToken (generateTokens env u)) (rememberMe d) db1") auto
  have "db_wf (snd (user_update (user_id u) (\<lambda>u. u\<lparr>lastLogin := Some (now env)\<rparr>) db))"
    using assms by (rule user_update_wf) simp_all
  with r1 have wf1: "db_wf db1" by simp
  from createSession_wf [OF wf1, of env "user_id u" "tok_refreshToken (generateTokens env u)" "rememberMe d"] r2
  have wf2: "db_wf db2" by simp
  then have wf3: "db_wf (logAuditEvent env (user_id u) ''login'' db2)" by (simp add: logAuditEvent_wf)
  have "snd (login env d db) = db \<or> snd (login env d db) = db1 \<or> snd (login env d db) = db2 \<or>
        snd (login env d db) = logAuditEvent env (user_id u) ''login'' db2"
    using Some r1 r2 by (cases e1; cases e2) (simp_all add: login_def Let_def)
  with assms wf1 wf2 wf3 show ?thesis by auto
qed

lemma logout_preserves_wf:
  assumes "db_wf db"
  shows "db_wf (snd (logout env rt db))"
proof (cases "session_findUnique_refreshToken db rt")
  case None
  with assms show ?thesis by (simp add: logout_def)
next
  case (Some s)
  then have "snd (logout env rt db) = snd (session_update_isRevoked (session_id s) db) \<or>
             snd (logout env rt db) =
               logAuditEvent env (session_userId s) ''logout'' (snd (session_update_isRevoked (session_id s) db))"
    by (simp add: logout_def split: prod.splits sum.splits)
  with session_update_isRevoked_wf [OF assms, of "session_id s"] show ?thesis
    by (auto simp add: logAuditEvent_wf)
qed

lemma changePassword_preserves_wf:
  assumes "db_wf db"
  shows "db_wf (snd (changePassword env userId d db))"
proof (cases "fst (changePassword env userId d db)")
  case (Inl e)
  from changePassword_Inl [OF this] assms show ?thesis by simp
next
  case (Inr x)
  then have "fst (changePassword env userId d db) = Inr ()" by simp
  from changePassword_Inr [OF this]
  have eq: "snd (changePassword env userId d db) =
     logAuditEvent env userId ''password_change''
        (session_updateMany_revoke userId
           (db\<lparr>users := map (\<lambda>u. if user_id u = userId
                 then u\<lparr>password := bcrypt_hash env (newPassword d) saltRounds\<rparr> else u)
               (users db)\<rparr>))"
    by simp
  have "db_wf (db\<lparr>users := map (\<lambda>u. if user_id u = userId
                 then u\<lparr>password := bcrypt_hash env (newPassword d) saltRounds\<rparr> else u)
               (users db)\<rparr>)"
    using assms by (rule users_map_wf) simp_all
  then show ?thesis unfolding eq logAuditEvent_wf by (rule session_updateMany_revoke_wf)
qed

lemma register_preserves_wf:
  assumes "db_wf db"
  shows "db_wf (snd (register env d db))"
proof (cases "user_findFirst_email_or_username db (reg_email d) (reg_username d)")
  case (Some ex)
  from register_existing [OF this, of env] assms show ?thesis by simp
next
  case None
  let ?c = "user_create env (reg_email d) (reg_username d) (bcrypt_hash env (reg_password d) saltRounds)
              (reg_firstName d) (reg_lastName d) db"
  obtain e1 db1 where r1: "?c = (e1, db1)" by (cases ?c) auto
  from user_create_wf [OF assms, of env "reg_email d" "reg_username d"
      "bcrypt_hash env (reg_password d) saltRounds" "reg_firstName d" "reg_lastName d"] r1
  have wf1: "db_wf db1" by simp
  show ?thesis
  proof (cases e1)
    case (Inl e)
    with None r1 wf1 show ?thesis by (simp add: register_def Let_def)
  next
    case (Inr u)
    obtain e2 db2 where r2:
      "createSession env (user_id u) (tok_refreshToken (generateTokens env u)) False db1 = (e2, db2)"
      by (cases "createSession env (user_id u) (tok_refreshToken (generateTokens env u)) False db1") auto
    from createSession_wf [OF wf1, of env "user_id u" "tok_refreshToken (generateTokens env u)" False] r2
    have wf2: "db_wf db2" by simp
    then have wf3: "db_wf (logAuditEvent env (user_id u) ''register'' db2)"
      by (simp add: logAuditEvent_wf)
    have "snd (register env d db) = db2 \<or>
          snd (register env d db) = logAuditEvent env (user_id u) ''register'' db2"
      using None r1 Inr r2 by (cases e2) (simp_all add: register_def Let_def)
    with wf2 wf3 show ?thesis by auto
  qed
qed

end
